theory Spec2Isabelle
  imports Main "HOL-Library.Sublist" "HOL-Library.Word"
begin

section \<open>Python primitives used by the scanner\<close>

text \<open>
  Text is a list of characters. A \<open>char\<close> stands for one code point below 256, which is
  all the scan utility's column layout needs; the whitespace set and the digit set below are
  those of Python's \<open>str.isspace\<close> and \<open>int\<close> on that range.
\<close>

datatype error = ValueError | AttributeError | UnicodeDecodeError | UnboundLocalError | TypeError

definition isspace :: "char \<Rightarrow> bool" where
  "isspace c = (let n = (of_char c :: nat) in
      (9 \<le> n \<and> n \<le> 13) \<or> (28 \<le> n \<and> n \<le> 32) \<or> n = 133 \<or> n = 160)"

definition isdigit :: "char \<Rightarrow> bool" where
  "isdigit c = (let n = (of_char c :: nat) in 48 \<le> n \<and> n \<le> 57)"

definition digit_value :: "char \<Rightarrow> nat" where
  "digit_value c = (of_char c :: nat) - 48"

text \<open>\<open>s.strip()\<close>: whitespace removed at both ends.\<close>

definition strip :: "string \<Rightarrow> string" where
  "strip s = rev (dropWhile isspace (rev (dropWhile isspace s)))"

text \<open>\<open>s.startswith(p)\<close> is \<open>prefix p s\<close>.\<close>

text \<open>\<open>s.find(sub)\<close> counted from position \<open>i\<close> of the scan: the first position at
  which \<open>sub\<close> occurs.\<close>

fun str_find :: "string \<Rightarrow> string \<Rightarrow> nat \<Rightarrow> nat option" where
  "str_find sub [] i = (if sub = [] then Some i else None)"
| "str_find sub (c # cs) i =
     (if prefix sub (c # cs) then Some i else str_find sub cs (Suc i))"

text \<open>\<open>s.index(sub)\<close> raises ValueError when \<open>sub\<close> does not occur.\<close>

definition index :: "string \<Rightarrow> string \<Rightarrow> error + int" where
  "index s sub = (case str_find sub s 0 of None \<Rightarrow> Inl ValueError | Some i \<Rightarrow> Inr (int i))"

text \<open>\<open>sub in s\<close>.\<close>

definition contains :: "string \<Rightarrow> string \<Rightarrow> bool" where
  "contains sub s = (str_find sub s 0 \<noteq> None)"

text \<open>\<open>s.split("\n")\<close>: the pieces between line feeds; the empty text gives one empty
  piece.\<close>

fun split_nl :: "string \<Rightarrow> string list" where
  "split_nl [] = [] # []"
| "split_nl (c # cs) =
     (if c = CHR 0x0A then [] # split_nl cs
      else (case split_nl cs of [] \<Rightarrow> [c] # [] | l # ls \<Rightarrow> (c # l) # ls))"

text \<open>Slices never raise: a negative bound counts from the end, and both bounds are
  clipped to the text.\<close>

definition adjust_index :: "nat \<Rightarrow> int \<Rightarrow> nat" where
  "adjust_index n i =
     (if i < 0 then (if i + int n < 0 then 0 else nat (i + int n))
      else if int n < i then n else nat i)"

definition py_slice :: "int \<Rightarrow> int \<Rightarrow> 'a list \<Rightarrow> 'a list" where
  "py_slice i j xs =
     (let a = adjust_index (length xs) i; b = adjust_index (length xs) j
      in take (b - a) (drop a xs))"

definition py_slice_from :: "int \<Rightarrow> 'a list \<Rightarrow> 'a list" where
  "py_slice_from i xs = drop (adjust_index (length xs) i) xs"

text \<open>
  \<open>int(s)\<close> in base 10: surrounding whitespace is dropped, one sign is allowed, then come
  decimal digits, where a single underscore may stand between two digits. Anything else
  raises ValueError. The whitespace \<open>int\<close> drops is that of \<open>strip\<close> without the four
  separators 28 to 31. \<open>scan_digits\<close> carries the previous character, as the interpreter's
  scan does, to refuse doubled and trailing underscores. (Recent interpreters also refuse
  texts of more than 4300 digits; the scanner only converts slices of at most four
  characters.)
\<close>

definition int_space :: "char \<Rightarrow> bool" where
  "int_space c = (let n = (of_char c :: nat) in
      (9 \<le> n \<and> n \<le> 13) \<or> n = 32 \<or> n = 133 \<or> n = 160)"

fun scan_digits :: "char \<Rightarrow> nat \<Rightarrow> string \<Rightarrow> nat option" where
  "scan_digits prev acc [] = (if prev = CHR ''_'' then None else Some acc)"
| "scan_digits prev acc (c # cs) =
     (if c = CHR ''_'' then (if prev = CHR ''_'' then None else scan_digits c acc cs)
      else if isdigit c then scan_digits c (10 * acc + digit_value c) cs
      else None)"

definition py_int :: "string \<Rightarrow> error + int" where
  "py_int s =
     (let t = rev (dropWhile int_space (rev (dropWhile int_space s)));
          neg = (case t of [] \<Rightarrow> False | c # _ \<Rightarrow> c = CHR ''-'');
          body = (case t of [] \<Rightarrow> [] | c # cs \<Rightarrow> if c = CHR ''+'' \<or> c = CHR ''-'' then cs else t)
      in case body of
           [] \<Rightarrow> Inl ValueError
         | c # _ \<Rightarrow>
             if \<not> isdigit c then Inl ValueError
             else (case scan_digits c 0 body of
                     None \<Rightarrow> Inl ValueError
                   | Some n \<Rightarrow> Inr (if neg then - int n else int n)))"

section \<open>The scanner\<close>

text \<open>\<open>rssi_to_quality\<close>, on Python's unbounded integers.\<close>

definition rssi_to_quality :: "int \<Rightarrow> int" where
  "rssi_to_quality rssi = 2 * (rssi + 100)"

text \<open>\<open>AccessPoint\<close>: a dict with the four keys its constructor stores.\<close>

record AccessPoint =
  ssid :: string
  bssid :: string
  quality :: int
  security :: string

text \<open>
  The local variables of \<open>parse_output\<close>. \<open>security_start_index\<close> starts as \<open>False\<close>
  (here \<open>None\<close>) and holds an integer after a header line; the two other indices are
  unbound (\<open>None\<close>) until a header line assigns them.
\<close>

record parse_state =
  results :: "AccessPoint list"
  security_start_index :: "int option"
  ssid_end_index :: "int option"
  rssi_start_index :: "int option"

definition init_state :: parse_state where
  "init_state = \<lparr>results = [], security_start_index = None,
                 ssid_end_index = None, rssi_start_index = None\<rparr>"

text \<open>Truth value of \<open>security_start_index\<close>: \<open>False\<close> and \<open>0\<close> are false.\<close>

definition truthy :: "int option \<Rightarrow> bool" where
  "truthy v = (case v of None \<Rightarrow> False | Some i \<Rightarrow> i \<noteq> 0)"

definition is_header :: "string \<Rightarrow> bool" where
  "is_header line = prefix ''SSID BSSID'' (strip line)"

text \<open>The header branch: three \<open>index\<close> calls in the source's order, none of them inside
  the \<open>try\<close>, so a missing label ends the whole parse with ValueError.\<close>

definition header_step :: "parse_state \<Rightarrow> string \<Rightarrow> error + parse_state" where
  "header_step st line =
     (case index line ''SECURITY'' of
        Inl e \<Rightarrow> Inl e
      | Inr sec \<Rightarrow>
          (case index line ''SSID'' of
             Inl e \<Rightarrow> Inl e
           | Inr s \<Rightarrow>
               (case index line ''RSSI'' of
                  Inl e \<Rightarrow> Inl e
                | Inr r \<Rightarrow>
                    Inr (st\<lparr>security_start_index := Some sec,
                            ssid_end_index := Some (s + 4),
                            rssi_start_index := Some r\<rparr>))))"

text \<open>The body of the \<open>try\<close>: reading an unbound index or a signal field that is not an
  integer raises.\<close>

definition try_body :: "parse_state \<Rightarrow> string \<Rightarrow> error + AccessPoint" where
  "try_body st line =
     (case ssid_end_index st of
        None \<Rightarrow> Inl UnboundLocalError
      | Some se \<Rightarrow>
          (case rssi_start_index st of
             None \<Rightarrow> Inl UnboundLocalError
           | Some rs \<Rightarrow>
               (let ssid_v = strip (py_slice 0 se line);
                    bssid_v = strip (py_slice (se + 1) (rs - 1) line);
                    rssi_v = strip (py_slice rs (rs + 4) line);
                    security_v = py_slice_from
                       (case security_start_index st of None \<Rightarrow> 0 | Some i \<Rightarrow> i) line
                in case py_int rssi_v of
                     Inl e \<Rightarrow> Inl e
                   | Inr n \<Rightarrow>
                       Inr \<lparr>ssid = ssid_v, bssid = bssid_v,
                            quality = rssi_to_quality n, security = security_v\<rparr>)))"

text \<open>One turn of the loop over the lines. \<open>except Exception\<close> swallows whatever the
  \<open>try\<close> body raised and leaves the results as they were.\<close>

definition parse_line :: "parse_state \<Rightarrow> string \<Rightarrow> error + parse_state" where
  "parse_line st line =
     (if is_header line then header_step st line
      else if line \<noteq> [] \<and> truthy (security_start_index st) \<and> \<not> contains ''IBSS'' line then
        (case try_body st line of
           Inr ap \<Rightarrow> Inr (st\<lparr>results := results st @ [ap]\<rparr>)
         | Inl e \<Rightarrow> Inr st)
      else Inr st)"

fun parse_lines :: "parse_state \<Rightarrow> string list \<Rightarrow> error + parse_state" where
  "parse_lines st [] = Inr st"
| "parse_lines st (l # ls) =
     (case parse_line st l of Inl e \<Rightarrow> Inl e | Inr st' \<Rightarrow> parse_lines st' ls)"

definition parse_output :: "string \<Rightarrow> error + AccessPoint list" where
  "parse_output output =
     (case parse_lines init_state (split_nl output) of
        Inl e \<Rightarrow> Inl e
      | Inr st \<Rightarrow> Inr (results st))"

text \<open>
  The dict comprehension of \<open>aps_to_dict\<close> stores \<open>ap['quality']\<close> under the key
  \<open>ap['ssid'] + " " + ap['bssid']\<close>, one access point after the other; a later store under
  the same key replaces the earlier one.
\<close>

definition aps_to_dict :: "AccessPoint list \<Rightarrow> (string \<rightharpoonup> int)" where
  "aps_to_dict aps = fold (\<lambda>ap d. d(ssid ap @ '' '' @ bssid ap \<mapsto> quality ap)) aps Map.empty"

section \<open>Running the scan command\<close>

text \<open>
  What \<open>ensure_str\<close> may receive: bytes, which have a \<open>decode\<close> method, or text, which
  has none. The codecs belong to Python, not to this program, so \<open>decode\<close> is a parameter:
  it takes the encoding's name, the error handler and the bytes. What a text is made of is
  left open here (\<open>'t\<close>); the scanner reads it as a \<open>string\<close>.
\<close>

datatype 't pyobj = Bytes "8 word list" | Str 't

datatype errors_mode = Strict | Ignore

type_synonym 't decoder = "string \<Rightarrow> errors_mode \<Rightarrow> 8 word list \<Rightarrow> error + 't"

definition ensure_str :: "'t decoder \<Rightarrow> 't pyobj \<Rightarrow> error + 't pyobj" where
  "ensure_str decode output =
     (case output of
        Str s \<Rightarrow> Inr (Str s)
      | Bytes b \<Rightarrow>
          (case decode ''utf8'' Ignore b of
             Inr s \<Rightarrow> Inr (Str s)
           | Inl UnicodeDecodeError \<Rightarrow>
               (case decode ''utf16'' Ignore b of Inl e \<Rightarrow> Inl e | Inr s \<Rightarrow> Inr (Str s))
           | Inl AttributeError \<Rightarrow> Inr (Bytes b)
           | Inl e \<Rightarrow> Inl e))"

text \<open>
  Python's UTF-8 codec under the handler \<open>ignore\<close>, giving the text as its code points.
  A well-formed sequence of one to four bytes (no overlong form, no surrogate, nothing
  above U+10FFFF) gives its code point; a byte at which no such sequence starts is
  dropped, and decoding goes on at the next byte. Python drops a lead byte together with
  the continuation bytes it had accepted, which comes to the same text, since a
  continuation byte starts no sequence. Nothing is raised.
\<close>

definition is_cont :: "8 word \<Rightarrow> bool" where
  "is_cont b = (0x80 \<le> b \<and> b \<le> 0xBF)"

definition cont_bits :: "8 word \<Rightarrow> nat" where
  "cont_bits b = unat b mod 64"

text \<open>The second byte of a sequence of three or four bytes, whose range depends on the
  lead byte.\<close>

definition second_ok :: "8 word \<Rightarrow> 8 word \<Rightarrow> bool" where
  "second_ok b0 b1 =
     (if b0 = 0xE0 then 0xA0 \<le> b1 \<and> b1 \<le> 0xBF
      else if b0 = 0xED then 0x80 \<le> b1 \<and> b1 \<le> 0x9F
      else if b0 = 0xF0 then 0x90 \<le> b1 \<and> b1 \<le> 0xBF
      else if b0 = 0xF4 then 0x80 \<le> b1 \<and> b1 \<le> 0x8F
      else is_cont b1)"

text \<open>The sequence that starts with the lead byte \<open>b0\<close>, the bytes after it being \<open>bs\<close>:
  its code point and the number of continuation bytes it takes, or \<open>None\<close> where no
  well-formed sequence starts.\<close>

definition utf8_sequence :: "8 word \<Rightarrow> 8 word list \<Rightarrow> (nat \<times> nat) option" where
  "utf8_sequence b0 bs =
     (if b0 < 0x80 then Some (unat b0, 0)
      else if 0xC2 \<le> b0 \<and> b0 \<le> 0xDF then
        (if 1 \<le> length bs \<and> is_cont (bs ! 0)
         then Some (unat b0 mod 32 * 64 + cont_bits (bs ! 0), 1)
         else None)
      else if 0xE0 \<le> b0 \<and> b0 \<le> 0xEF then
        (if 2 \<le> length bs \<and> second_ok b0 (bs ! 0) \<and> is_cont (bs ! 1)
         then Some ((unat b0 mod 16 * 64 + cont_bits (bs ! 0)) * 64 + cont_bits (bs ! 1), 2)
         else None)
      else if 0xF0 \<le> b0 \<and> b0 \<le> 0xF4 then
        (if 3 \<le> length bs \<and> second_ok b0 (bs ! 0) \<and> is_cont (bs ! 1) \<and> is_cont (bs ! 2)
         then Some (((unat b0 mod 8 * 64 + cont_bits (bs ! 0)) * 64 + cont_bits (bs ! 1)) * 64
                      + cont_bits (bs ! 2), 3)
         else None)
      else None)"

fun utf8_ignore :: "8 word list \<Rightarrow> nat list" where
  "utf8_ignore [] = []"
| "utf8_ignore (b0 # bs) =
     (case utf8_sequence b0 bs of
        Some (cp, n) \<Rightarrow> cp # utf8_ignore (drop n bs)
      | None \<Rightarrow> utf8_ignore bs)"

text \<open>Python's codecs with that one fixed: \<open>other\<close> stands for every other codec and
  handler, the UTF-16 codec among them.\<close>

definition python_codecs :: "nat list decoder \<Rightarrow> nat list decoder" where
  "python_codecs other enc mode b =
     (if enc = ''utf8'' \<and> mode = Ignore then Inr (utf8_ignore b) else other enc mode b)"

text \<open>An \<open>OSXWifiScanner\<close> object: the device and the command fixed by \<open>get_cmd\<close>.\<close>

record scanner =
  device :: string
  cmd :: string

definition get_cmd :: string where
  "get_cmd =
     ''sudo /System/Library/PrivateFrameworks/Apple80211.framework/Versions/Current/Resources/''
     @ ''airport -s''"

definition OSXWifiScanner :: "string \<Rightarrow> scanner" where
  "OSXWifiScanner dev = \<lparr>device = dev, cmd = get_cmd\<rparr>"

text \<open>\<open>get_scanner\<close>; the value of \<open>platform.system()\<close> is the first argument. Without a
  matching branch the Python function ends and returns \<open>None\<close>.\<close>

definition get_scanner :: "string \<Rightarrow> string \<Rightarrow> scanner option" where
  "get_scanner operating_system dev =
     (if operating_system = ''Darwin'' then Some (OSXWifiScanner dev) else None)"

text \<open>\<open>call_subprocess\<close>: the commands run so far are kept in a log, and \<open>run\<close> gives the
  bytes a command writes to its standard output.\<close>

definition call_subprocess ::
  "(string \<Rightarrow> 8 word list) \<Rightarrow> string \<Rightarrow> string list \<Rightarrow> 8 word list \<times> string list" where
  "call_subprocess run c log = (run c, log @ [c])"

definition get_access_points ::
  "string decoder \<Rightarrow> (string \<Rightarrow> 8 word list) \<Rightarrow> scanner \<Rightarrow> string list
     \<Rightarrow> (error + AccessPoint list) \<times> string list" where
  "get_access_points decode run self log =
     (case call_subprocess run (cmd self) log of
        (out, log') \<Rightarrow>
          (case ensure_str decode (Bytes out) of
             Inl e \<Rightarrow> (Inl e, log')
           | Inr (Str s) \<Rightarrow> (parse_output s, log')
           | Inr (Bytes b) \<Rightarrow> (Inl TypeError, log')))"

text \<open>\<open>wifi_scanner.get_access_points()\<close> as \<open>sample\<close> and \<open>main\<close> write it, on whatever
  \<open>get_scanner\<close> returned: \<open>None\<close> has no such attribute.\<close>

definition call_get_access_points ::
  "string decoder \<Rightarrow> (string \<Rightarrow> 8 word list) \<Rightarrow> scanner option \<Rightarrow> string list
     \<Rightarrow> (error + AccessPoint list) \<times> string list" where
  "call_get_access_points decode run wifi_scanner log =
     (case wifi_scanner of
        None \<Rightarrow> (Inl AttributeError, log)
      | Some self \<Rightarrow> get_access_points decode run self log)"

text \<open>\<open>sample\<close>; \<open>python_env\<close> is the truth value of the environment variable
  \<open>PYTHON_ENV\<close>.\<close>

definition sample ::
  "string decoder \<Rightarrow> (string \<Rightarrow> 8 word list) \<Rightarrow> string \<Rightarrow> bool \<Rightarrow> string \<Rightarrow> string list
     \<Rightarrow> (error + (string \<rightharpoonup> int)) \<times> string list" where
  "sample decode run operating_system python_env dev log =
     (let wifi_scanner = get_scanner operating_system dev;
          (aps, log') =
            (if \<not> python_env then call_get_access_points decode run wifi_scanner log
             else (Inr [\<lparr>ssid = ''X'', bssid = ''XX:XX:XX:XX:XX:84'',
                         quality = 100, security = ''XX''\<rparr>], log))
      in (case aps of Inl e \<Rightarrow> Inl e | Inr a \<Rightarrow> Inr (aps_to_dict a), log'))"

section \<open>Notions used to state the properties\<close>

text \<open>\<open>sub\<close> occurs in \<open>s\<close> at position \<open>i\<close> and at no earlier position.\<close>

definition first_occurrence :: "string \<Rightarrow> string \<Rightarrow> nat \<Rightarrow> bool" where
  "first_occurrence sub s i =
     (prefix sub (drop i s) \<and> list_all (\<lambda>j. \<not> prefix sub (drop j s)) [0..<i])"

text \<open>The records a run of lines without a header gives under the boundaries held in
  \<open>st\<close>: each line that is not empty and has no IBSS in it contributes the record its
  \<open>try\<close> body builds, if it builds one.\<close>

definition data_records :: "parse_state \<Rightarrow> string list \<Rightarrow> AccessPoint list" where
  "data_records st ds =
     concat (map (\<lambda>l. if l \<noteq> [] \<and> \<not> contains ''IBSS'' l
                      then (case try_body st l of Inr ap \<Rightarrow> [ap] | Inl e \<Rightarrow> [])
                      else []) ds)"

text \<open>Every header line among \<open>ls\<close> carries the two labels the header branch looks up
  besides SSID.\<close>

definition headers_complete :: "string list \<Rightarrow> bool" where
  "headers_complete ls =
     list_all (\<lambda>l. is_header l \<longrightarrow> contains ''SECURITY'' l \<and> contains ''RSSI'' l) ls"

section \<open>Example inputs\<close>

text \<open>The header line the scan utility prints, a data line whose columns line up with
  it, one whose signal column does not hold a number, and one of an ad-hoc network.\<close>

definition example_header :: string where
  "example_header =
     ''        SSID BSSID             RSSI CHANNEL HT CC SECURITY (auth/unicast/group)''"

definition example_line :: string where
  "example_line = ''     HomeNet aa:bb:cc:dd:ee:ff -55  6       Y  US WPA2(PSK/AES/AES)''"

definition example_bad_line :: string where
  "example_bad_line = ''    Broken   aa:bb:cc:dd:ee:00 n/a  6       Y  US WPA2(PSK/AES/AES)''"

definition example_ibss_line :: string where
  "example_ibss_line = ''    AdHocNet aa:bb:cc:dd:ee:01 -60  6       Y  US NONE IBSS''"

text \<open>The state of the parse after \<open>example_header\<close>.\<close>

definition example_state :: parse_state where
  "example_state = \<lparr>results = [], security_start_index = Some 50,
                    ssid_end_index = Some 12, rssi_start_index = Some 31\<rparr>"

section \<open>Lines, occurrences and the loop\<close>

lemma parse_lines_append:
  "parse_lines st (xs @ ys) =
     (case parse_lines st xs of Inl e \<Rightarrow> Inl e | Inr st' \<Rightarrow> parse_lines st' ys)"
  by (induction xs arbitrary: st) (auto split: sum.splits)

lemma split_nl_not_Nil: "split_nl s \<noteq> []"
  by (induction s) (auto split: list.splits)

lemma split_nl_append: "split_nl (a @ CHR 0x0A # b) = split_nl a @ split_nl b"
proof (induction a)
  case Nil
  show ?case by simp
next
  case (Cons c a)
  obtain l ls where "split_nl a = l # ls"
    using split_nl_not_Nil [of a] by (cases "split_nl a") auto
  with Cons show ?case by simp
qed

lemma split_nl_single: "CHR 0x0A \<notin> set l \<Longrightarrow> split_nl l = [l]"
  by (induction l) auto

lemma parse_line_skip_IBSS:
  "\<not> is_header l \<Longrightarrow> contains ''IBSS'' l \<Longrightarrow> parse_line st l = Inr st"
  by (simp add: parse_line_def)

lemma parse_line_no_header_yet:
  "\<not> is_header l \<Longrightarrow> security_start_index st = None \<Longrightarrow> parse_line st l = Inr st"
  by (simp add: parse_line_def truthy_def)

lemma parse_lines_no_header:
  "security_start_index st = None \<Longrightarrow> \<forall>l\<in>set ls. \<not> is_header l \<Longrightarrow> parse_lines st ls = Inr st"
  by (induction ls) (auto simp: parse_line_no_header_yet)

lemma str_find_shift: "str_find sub s (i + n) = map_option (\<lambda>k. k + n) (str_find sub s i)"
proof (induction s arbitrary: i)
  case Nil
  show ?case by simp
next
  case (Cons c cs)
  from Cons [of "Suc i"] show ?case by simp
qed

lemma str_find_first: "str_find sub s 0 = Some k \<Longrightarrow> first_occurrence sub s k"
proof (induction s arbitrary: k)
  case Nil
  then show ?case by (auto simp: first_occurrence_def split: if_splits)
next
  case (Cons c cs)
  show ?case
  proof (cases "prefix sub (c # cs)")
    case True
    with Cons.prems show ?thesis by (simp add: first_occurrence_def)
  next
    case False
    with Cons.prems have "str_find sub cs (0 + 1) = Some k" by simp
    then obtain k' where k': "str_find sub cs 0 = Some k'" "k = Suc k'"
      unfolding str_find_shift by auto
    from Cons.IH [OF k'(1)] have fo: "first_occurrence sub cs k'" .
    have "list_all (\<lambda>j. \<not> prefix sub (drop j (c # cs))) [0..<Suc k']"
      unfolding list_all_iff
    proof
      fix j assume "j \<in> set [0..<Suc k']"
      then have j: "j < Suc k'" by auto
      show "\<not> prefix sub (drop j (c # cs))"
      proof (cases j)
        case 0
        with False show ?thesis by simp
      next
        case (Suc m)
        with j have "m < k'" by simp
        with fo have "\<not> prefix sub (drop m cs)"
          by (simp add: first_occurrence_def list_all_iff)
        with Suc show ?thesis by simp
      qed
    qed
    with fo k'(2) show ?thesis by (simp add: first_occurrence_def)
  qed
qed

lemma str_find_occurs: "prefix sub (drop j s) \<Longrightarrow> j \<le> length s \<Longrightarrow> str_find sub s i \<noteq> None"
proof (induction s arbitrary: i j)
  case Nil
  then show ?case by simp
next
  case (Cons c cs)
  show ?case
  proof (cases j)
    case 0
    with Cons.prems show ?thesis by simp
  next
    case (Suc m)
    with Cons.prems have "prefix sub (drop m cs)" "m \<le> length cs" by simp_all
    from Cons.IH [OF this] show ?thesis by simp
  qed
qed

lemma contains_infix: "contains sub (a @ sub @ b)"
proof -
  have "prefix sub (drop (length a) (a @ sub @ b))" by simp
  moreover have "length a \<le> length (a @ sub @ b)" by simp
  ultimately show ?thesis unfolding contains_def by (rule str_find_occurs)
qed

lemma isspace_not_S: "isspace c \<Longrightarrow> c \<noteq> CHR ''S''"
  by (auto simp: isspace_def)

lemma str_find_after_spaces:
  "\<forall>c\<in>set ws. isspace c \<Longrightarrow> prefix ''SSID'' rest \<Longrightarrow>
     str_find ''SSID'' (ws @ rest) i = Some (i + length ws)"
proof (induction ws arbitrary: i)
  case Nil
  then show ?case by (cases rest) auto
next
  case (Cons c ws)
  then have "c \<noteq> CHR ''S''" by (simp add: isspace_not_S)
  with Cons show ?case by simp
qed

lemma strip_prefix: "prefix (strip s) (dropWhile isspace s)"
proof -
  let ?d = "dropWhile isspace s"
  have "rev ?d = takeWhile isspace (rev ?d) @ dropWhile isspace (rev ?d)" by simp
  then have "?d = rev (dropWhile isspace (rev ?d)) @ rev (takeWhile isspace (rev ?d))"
    by (metis rev_append rev_rev_ident)
  then show ?thesis unfolding strip_def by (metis prefixI)
qed

lemma header_after_spaces:
  assumes "is_header line"
  shows "prefix ''SSID BSSID'' (dropWhile isspace line)"
  using assms strip_prefix [of line] unfolding is_header_def by (rule prefix_order.trans)

lemma header_index_SSID:
  assumes "is_header line"
  shows "index line ''SSID'' = Inr (int (length (takeWhile isspace line)))"
proof -
  have "prefix ''SSID'' ''SSID BSSID''" by simp
  then have p: "prefix ''SSID'' (dropWhile isspace line)"
    using header_after_spaces [OF assms] by (rule prefix_order.trans)
  have "\<forall>c\<in>set (takeWhile isspace line). isspace c" by (auto dest: set_takeWhileD)
  from str_find_after_spaces [OF this p, of 0]
  show ?thesis by (simp add: index_def)
qed

lemma header_not_at_SECURITY:
  assumes "is_header line"
  shows "\<not> prefix ''SECURITY'' line"
proof
  assume s: "prefix ''SECURITY'' line"
  then obtain r where line: "line = ''SECURITY'' @ r" by (auto simp: prefix_def)
  have "\<not> isspace CHR ''S''" by (simp add: isspace_def)
  with line have "dropWhile isspace line = line" by simp
  with header_after_spaces [OF assms] have "prefix ''SSID BSSID'' line" by simp
  with line show False by simp
qed

lemma index_contains:
  "contains sub s \<Longrightarrow> \<exists>k. index s sub = Inr (int k) \<and> first_occurrence sub s k"
  by (auto simp: contains_def index_def dest: str_find_first)

lemma header_step_ok:
  assumes h: "is_header line" and r: "contains ''RSSI'' line" and s: "contains ''SECURITY'' line"
  shows "\<exists>s r. first_occurrence ''SECURITY'' line s \<and> first_occurrence ''RSSI'' line r \<and> s \<noteq> 0 \<and>
           parse_line st line =
             Inr (st\<lparr>security_start_index := Some (int s),
                     ssid_end_index := Some (int (length (takeWhile isspace line)) + 4),
                     rssi_start_index := Some (int r)\<rparr>)"
proof -
  from index_contains [OF s] obtain ks where
    ks: "index line ''SECURITY'' = Inr (int ks)" "first_occurrence ''SECURITY'' line ks" by blast
  from index_contains [OF r] obtain kr where
    kr: "index line ''RSSI'' = Inr (int kr)" "first_occurrence ''RSSI'' line kr" by blast
  have "ks \<noteq> 0"
  proof
    assume "ks = 0"
    with ks(2) have "prefix ''SECURITY'' line" by (simp add: first_occurrence_def)
    with header_not_at_SECURITY [OF h] show False by simp
  qed
  moreover have "parse_line st line =
      Inr (st\<lparr>security_start_index := Some (int ks),
              ssid_end_index := Some (int (length (takeWhile isspace line)) + 4),
              rssi_start_index := Some (int kr)\<rparr>)"
    using h ks(1) kr(1) header_index_SSID [OF h]
    by (simp add: parse_line_def header_step_def)
  ultimately show ?thesis using ks(2) kr(2) by blast
qed

lemma try_body_results [simp]: "try_body (st\<lparr>results := rs\<rparr>) l = try_body st l"
  by (cases "ssid_end_index st"; cases "rssi_start_index st") (simp_all add: try_body_def)

lemma data_records_results [simp]: "data_records (st\<lparr>results := rs\<rparr>) ds = data_records st ds"
  unfolding data_records_def try_body_results by (rule refl)

lemma parse_line_data:
  assumes "\<not> is_header l" and "truthy (security_start_index st)"
  shows "parse_line st l = Inr (st\<lparr>results := results st @ data_records st [l]\<rparr>)"
  using assms by (auto simp: parse_line_def data_records_def split: sum.splits)

lemma data_records_Cons: "data_records st (l # ds) = data_records st [l] @ data_records st ds"
  by (simp add: data_records_def)

lemma parse_lines_data:
  assumes "\<forall>l\<in>set ds. \<not> is_header l" and "truthy (security_start_index st)"
  shows "parse_lines st (ds @ rest) =
           parse_lines (st\<lparr>results := results st @ data_records st ds\<rparr>) rest"
  using assms
proof (induction ds arbitrary: st)
  case Nil
  show ?case by (simp add: data_records_def)
next
  case (Cons l ds)
  let ?st = "st\<lparr>results := results st @ data_records st [l]\<rparr>"
  have 1: "parse_line st l = Inr ?st" using Cons.prems by (simp add: parse_line_data)
  have 2: "truthy (security_start_index ?st)" using Cons.prems by simp
  have 3: "\<forall>l\<in>set ds. \<not> is_header l" using Cons.prems by simp
  from Cons.IH [OF 3 2] 1 show ?case
    by (simp add: data_records_Cons [of st l ds])
qed

lemma parse_line_keeps_boundaries:
  assumes "\<not> is_header l"
  shows "\<exists>st'. parse_line st l = Inr st' \<and>
           security_start_index st' = security_start_index st \<and>
           ssid_end_index st' = ssid_end_index st \<and>
           rssi_start_index st' = rssi_start_index st"
  using assms by (auto simp: parse_line_def split: sum.splits)

lemma parse_line_total:
  assumes "is_header l \<longrightarrow> contains ''SECURITY'' l \<and> contains ''RSSI'' l"
  shows "\<exists>st'. parse_line st l = Inr st'"
proof (cases "is_header l")
  case True
  with assms header_step_ok [of l st] show ?thesis by blast
next
  case False
  with parse_line_keeps_boundaries [of l st] show ?thesis by blast
qed

lemma parse_lines_total:
  "headers_complete ls \<Longrightarrow> \<exists>st'. parse_lines st ls = Inr st'"
proof (induction ls arbitrary: st)
  case Nil
  show ?case by simp
next
  case (Cons l ls)
  then have "is_header l \<longrightarrow> contains ''SECURITY'' l \<and> contains ''RSSI'' l"
    and hc: "headers_complete ls" by (simp_all add: headers_complete_def)
  from parse_line_total [OF this(1)] obtain st1 where "parse_line st l = Inr st1" by blast
  with Cons.IH [OF hc, of st1] show ?case by simp
qed

lemma parse_lines_drop_line:
  assumes "parse_lines st0 pre = Inr st" and "parse_line st l = Inr st"
  shows "parse_lines st0 (pre @ l # post) = parse_lines st0 (pre @ post)"
  using assms by (simp add: parse_lines_append)

lemma parse_line_failed:
  "\<not> is_header l \<Longrightarrow> try_body st l = Inl e \<Longrightarrow> parse_line st l = Inr st"
  by (simp add: parse_line_def)

lemma fold_store_other:
  "\<forall>a\<in>set ys. ssid a @ '' '' @ bssid a \<noteq> k \<Longrightarrow>
     fold (\<lambda>ap d. d(ssid ap @ '' '' @ bssid ap \<mapsto> quality ap)) ys m k = m k"
  by (induction ys arbitrary: m) auto

lemma fold_store_dom:
  "dom (fold (\<lambda>ap d. d(ssid ap @ '' '' @ bssid ap \<mapsto> quality ap)) ys m) =
     dom m \<union> (\<lambda>a. ssid a @ '' '' @ bssid a) ` set ys"
  by (induction ys arbitrary: m) auto

section \<open>The example of the header and one data line\<close>

text \<open>
  C1, as stated, at its own input: after the header line the data line
  \<open>HomeNet         aa:bb:cc:dd:ee:ff -55 ...\<close> does not give the record the claim
  names. Its columns do not line up with the header's: the signal field is cut out as
  \<open>ff -\<close>, which is no integer, and the line is dropped.
\<close>

theorem parse_output_unaligned_line_no_record:
  "parse_output
     (''        SSID BSSID             RSSI CHANNEL HT CC SECURITY (auth/unicast/group)''
      @ [CHR 0x0A] @
      ''HomeNet         aa:bb:cc:dd:ee:ff -55   6       Y  US WPA2(PSK/AES/AES)'')
   \<noteq> Inr [\<lparr>ssid = ''HomeNet'', bssid = ''aa:bb:cc:dd:ee:ff'', quality = 90,
            security = ''WPA2(PSK/AES/AES)''\<rparr>]"
proof -
  have "parse_output
     (''        SSID BSSID             RSSI CHANNEL HT CC SECURITY (auth/unicast/group)''
      @ [CHR 0x0A] @
      ''HomeNet         aa:bb:cc:dd:ee:ff -55   6       Y  US WPA2(PSK/AES/AES)'') = Inr []"
    by code_simp
  then show ?thesis by simp
qed

text \<open>
  C1 (amended): parsing the header line followed by the data line
  \<open>     HomeNet aa:bb:cc:dd:ee:ff -55  6       Y  US WPA2(PSK/AES/AES)\<close>, whose
  columns line up with the header's (name ending before column 12, address in columns 13
  to 29, signal from column 31, security from column 50), produces exactly one record:
  HomeNet, aa:bb:cc:dd:ee:ff, quality 90, WPA2(PSK/AES/AES).
\<close>

theorem parse_output_aligned_line_one_record:
  "parse_output
     (''        SSID BSSID             RSSI CHANNEL HT CC SECURITY (auth/unicast/group)''
      @ [CHR 0x0A] @
      ''     HomeNet aa:bb:cc:dd:ee:ff -55  6       Y  US WPA2(PSK/AES/AES)'')
   = Inr [\<lparr>ssid = ''HomeNet'', bssid = ''aa:bb:cc:dd:ee:ff'', quality = 90,
            security = ''WPA2(PSK/AES/AES)''\<rparr>]"
  by code_simp

section \<open>Header lines\<close>

text \<open>
  C2, as stated, fails at the line \<open>   SSID BSSID   RSSI\<close>: it is a header line and
  holds the SSID and RSSI labels, yet the parser sets no boundary from it. The lookup of
  SECURITY raises ValueError outside the \<open>try\<close>, and the parse ends there.
\<close>

theorem header_without_labels_raises:
  "is_header ''   SSID BSSID   RSSI'' \<and> contains ''SSID'' ''   SSID BSSID   RSSI'' \<and>
   contains ''RSSI'' ''   SSID BSSID   RSSI'' \<and>
   parse_line init_state ''   SSID BSSID   RSSI'' = Inl ValueError"
  by code_simp

text \<open>
  C2 (amended): a line is handled as a header line exactly when its trimmed content starts
  with \<open>SSID BSSID\<close>. For each such line \<open>h\<close> in which RSSI and SECURITY occur, whatever
  the state before, the parser sets \<open>ssid_end_index\<close> to the position right after the SSID
  label (which starts where the leading whitespace ends), \<open>rssi_start_index\<close> to the first
  position at which RSSI occurs and \<open>security_start_index\<close> to the first position at which
  SECURITY occurs. These boundaries cut every following line \<open>ds\<close> up to the next header
  line, which is the first line of \<open>rest\<close> if there is one and sets them anew by this same
  statement; a line that is not a header line never changes them.
\<close>

theorem header_line_sets_boundaries:
  assumes "is_header h" and "contains ''RSSI'' h" and "contains ''SECURITY'' h"
    and "\<forall>l\<in>set ds. \<not> is_header l"
  shows "\<exists>k r s.
      first_occurrence ''SSID'' h k \<and> k = length (takeWhile isspace h) \<and>
      first_occurrence ''RSSI'' h r \<and> first_occurrence ''SECURITY'' h s \<and>
      (let b = st\<lparr>security_start_index := Some (int s),
                   ssid_end_index := Some (int k + 4),
                   rssi_start_index := Some (int r)\<rparr>
       in parse_line st h = Inr b \<and>
          parse_lines st (h # ds @ rest) =
            parse_lines (b\<lparr>results := results st @ data_records b ds\<rparr>) rest) \<and>
      (\<forall>l\<in>set ds. \<exists>st'. parse_line st l = Inr st' \<and>
          security_start_index st' = security_start_index st \<and>
          ssid_end_index st' = ssid_end_index st \<and>
          rssi_start_index st' = rssi_start_index st)"
proof -
  from header_step_ok [OF assms(1-3), of st] obtain s r where
    s: "first_occurrence ''SECURITY'' h s" and r: "first_occurrence ''RSSI'' h r"
    and s0: "s \<noteq> 0"
    and step: "parse_line st h =
       Inr (st\<lparr>security_start_index := Some (int s),
               ssid_end_index := Some (int (length (takeWhile isspace h)) + 4),
               rssi_start_index := Some (int r)\<rparr>)" by blast
  let ?k = "length (takeWhile isspace h)"
  let ?b = "st\<lparr>security_start_index := Some (int s), ssid_end_index := Some (int ?k + 4),
               rssi_start_index := Some (int r)\<rparr>"
  have "str_find ''SSID'' h 0 = Some ?k"
    using header_index_SSID [OF assms(1)] by (simp add: index_def split: option.splits)
  then have k: "first_occurrence ''SSID'' h ?k" by (rule str_find_first)
  have t: "truthy (security_start_index ?b)" using s0 by (simp add: truthy_def)
  have "parse_lines st (h # ds @ rest) = parse_lines ?b (ds @ rest)" using step by simp
  also have "\<dots> = parse_lines (?b\<lparr>results := results ?b @ data_records ?b ds\<rparr>) rest"
    using assms(4) t by (rule parse_lines_data)
  finally have run: "parse_lines st (h # ds @ rest) =
      parse_lines (?b\<lparr>results := results st @ data_records ?b ds\<rparr>) rest" by simp
  have keep: "\<forall>l\<in>set ds. \<exists>st'. parse_line st l = Inr st' \<and>
          security_start_index st' = security_start_index st \<and>
          ssid_end_index st' = ssid_end_index st \<and>
          rssi_start_index st' = rssi_start_index st"
    using assms(4) parse_line_keeps_boundaries by blast
  show ?thesis
    apply (rule exI [of _ ?k], rule exI [of _ r], rule exI [of _ s])
    using k r s step run keep by (simp add: Let_def)
qed

text \<open>The statement at the scan utility's header line, followed by a good and a bad
  data line: the boundaries are 12, 31 and 50.\<close>

theorem header_line_sets_boundaries_witness:
  "is_header example_header \<and> contains ''RSSI'' example_header \<and>
   contains ''SECURITY'' example_header \<and>
   \<not> is_header example_line \<and> \<not> is_header example_bad_line \<and>
   (\<exists>k r s.
      first_occurrence ''SSID'' example_header k \<and>
      first_occurrence ''RSSI'' example_header r \<and>
      first_occurrence ''SECURITY'' example_header s \<and>
      parse_line init_state example_header =
        Inr (init_state\<lparr>security_start_index := Some (int s),
                          ssid_end_index := Some (int k + 4),
                          rssi_start_index := Some (int r)\<rparr>)) \<and>
   parse_lines init_state [example_header, example_line, example_bad_line] =
     Inr \<lparr>results = [\<lparr>ssid = ''HomeNet'', bssid = ''aa:bb:cc:dd:ee:ff'', quality = 90,
                       security = ''WPA2(PSK/AES/AES)''\<rparr>],
          security_start_index = Some 50, ssid_end_index = Some 12,
          rssi_start_index = Some 31\<rparr>"
proof -
  have 1: "is_header example_header" by code_simp
  have 2: "contains ''RSSI'' example_header" by code_simp
  have 3: "contains ''SECURITY'' example_header" by code_simp
  have 4: "\<not> is_header example_line" by code_simp
  have 5: "\<not> is_header example_bad_line" by code_simp
  have 6: "\<forall>l\<in>set [example_line, example_bad_line]. \<not> is_header l" using 4 5 by simp
  have 7: "\<exists>k r s.
      first_occurrence ''SSID'' example_header k \<and>
      first_occurrence ''RSSI'' example_header r \<and>
      first_occurrence ''SECURITY'' example_header s \<and>
      parse_line init_state example_header =
        Inr (init_state\<lparr>security_start_index := Some (int s),
                          ssid_end_index := Some (int k + 4),
                          rssi_start_index := Some (int r)\<rparr>)"
    using header_line_sets_boundaries [OF 1 2 3 6, of init_state "[]"]
    unfolding Let_def by blast
  have 8: "parse_lines init_state [example_header, example_line, example_bad_line] =
     Inr \<lparr>results = [\<lparr>ssid = ''HomeNet'', bssid = ''aa:bb:cc:dd:ee:ff'', quality = 90,
                       security = ''WPA2(PSK/AES/AES)''\<rparr>],
          security_start_index = Some 50, ssid_end_index = Some 12,
          rssi_start_index = Some 31\<rparr>"
    by code_simp
  from 1 2 3 4 5 7 8 show ?thesis by blast
qed

section \<open>Lines that cannot be read\<close>

text \<open>
  C3, as stated, fails: a header line without the SECURITY label makes the whole parse
  raise ValueError, since the header branch is not inside the \<open>try\<close>.
\<close>

theorem parse_output_incomplete_header_raises:
  "parse_output ''SSID BSSID RSSI CHANNEL HT CC'' = Inl ValueError"
  by code_simp

text \<open>
  C3 (amended): for every raw scan text in which each header line holds the labels
  SECURITY and RSSI, the parse returns normally. And wherever a line that is not a header
  line fails in its extraction (its \<open>try\<close> body raises, as when the signal field is not an
  integer), only that line is discarded: the state is left as it was, and the parse of the
  text gives what the parse of the text without that line gives, so every other line
  yields its record as before.
\<close>

theorem parse_output_tolerates_bad_data_lines:
  "(headers_complete (split_nl output) \<longrightarrow> (\<exists>rs. parse_output output = Inr rs)) \<and>
   (parse_lines init_state (split_nl pre) = Inr st \<and> \<not> is_header l \<and> CHR 0x0A \<notin> set l \<and>
      try_body st l = Inl e \<longrightarrow>
        parse_line st l = Inr st \<and>
        parse_output (pre @ CHR 0x0A # l @ CHR 0x0A # post) = parse_output (pre @ CHR 0x0A # post))"
proof (intro conjI impI)
  assume "headers_complete (split_nl output)"
  from parse_lines_total [OF this, of init_state]
  show "\<exists>rs. parse_output output = Inr rs" by (auto simp: parse_output_def)
next
  assume a: "parse_lines init_state (split_nl pre) = Inr st \<and> \<not> is_header l \<and>
     CHR 0x0A \<notin> set l \<and> try_body st l = Inl e"
  then show skip: "parse_line st l = Inr st" by (simp add: parse_line_failed)
  have "split_nl (pre @ CHR 0x0A # l @ CHR 0x0A # post) = split_nl pre @ l # split_nl post"
    using a by (simp add: split_nl_append split_nl_single)
  moreover have "parse_lines init_state (split_nl pre @ l # split_nl post) =
      parse_lines init_state (split_nl pre @ split_nl post)"
    using a skip by (intro parse_lines_drop_line) simp_all
  ultimately show "parse_output (pre @ CHR 0x0A # l @ CHR 0x0A # post) =
      parse_output (pre @ CHR 0x0A # post)"
    by (simp add: parse_output_def split_nl_append)
qed

text \<open>The statement at the header line, a line with \<open>n/a\<close> in the signal column and a
  good line: the bad line is dropped and the good one still gives its record.\<close>

theorem parse_output_tolerates_bad_data_lines_witness:
  "headers_complete
     (split_nl (example_header @ CHR 0x0A # example_bad_line @ CHR 0x0A # example_line)) \<and>
   parse_lines init_state (split_nl example_header) = Inr example_state \<and>
   \<not> is_header example_bad_line \<and> CHR 0x0A \<notin> set example_bad_line \<and>
   try_body example_state example_bad_line = Inl ValueError \<and>
   parse_output (example_header @ CHR 0x0A # example_bad_line @ CHR 0x0A # example_line)
     = parse_output (example_header @ CHR 0x0A # example_line) \<and>
   parse_output (example_header @ CHR 0x0A # example_line)
     = Inr [\<lparr>ssid = ''HomeNet'', bssid = ''aa:bb:cc:dd:ee:ff'', quality = 90,
              security = ''WPA2(PSK/AES/AES)''\<rparr>] \<and>
   (\<exists>rs. parse_output (example_header @ CHR 0x0A # example_bad_line @ CHR 0x0A # example_line)
           = Inr rs)"
proof -
  have 1: "headers_complete
     (split_nl (example_header @ CHR 0x0A # example_bad_line @ CHR 0x0A # example_line))"
    by code_simp
  have 2: "parse_lines init_state (split_nl example_header) = Inr example_state" by code_simp
  have 3: "\<not> is_header example_bad_line" by code_simp
  have 4: "CHR 0x0A \<notin> set example_bad_line" by code_simp
  have 5: "try_body example_state example_bad_line = Inl ValueError" by code_simp
  have 6: "parse_output (example_header @ CHR 0x0A # example_line)
     = Inr [\<lparr>ssid = ''HomeNet'', bssid = ''aa:bb:cc:dd:ee:ff'', quality = 90,
              security = ''WPA2(PSK/AES/AES)''\<rparr>]" by code_simp
  from parse_output_tolerates_bad_data_lines
      [of "example_header @ CHR 0x0A # example_bad_line @ CHR 0x0A # example_line"
          example_header example_state example_bad_line ValueError example_line]
    1 2 3 4 5 6
  show ?thesis by blast
qed

section \<open>The quality score\<close>

text \<open>
  C4: for every integer \<open>r\<close> the quality is exactly \<open>2 * (r + 100)\<close>. The function is
  total on the integers and nothing is clipped to the band from 0 to 150: \<open>-55\<close> gives 90,
  \<open>-100\<close> gives 0, \<open>-101\<close> gives \<open>-2\<close> and 0 gives 200.
\<close>

theorem rssi_to_quality_linear:
  "rssi_to_quality r = 2 * (r + 100) \<and> rssi_to_quality (- 55) = 90 \<and>
   rssi_to_quality (- 100) = 0 \<and> rssi_to_quality (- 101) = - 2 \<and> rssi_to_quality 0 = 200"
  by (simp add: rssi_to_quality_def)

section \<open>Texts without a header line\<close>

text \<open>
  C5: for a raw scan text that is empty, or none of whose lines is a header line, the
  parse returns the empty list of records and raises nothing.
\<close>

theorem parse_output_without_header:
  assumes "output = [] \<or> (\<forall>l\<in>set (split_nl output). \<not> is_header l)"
  shows "parse_output output = Inr []"
proof -
  have "\<not> is_header []" by (simp add: is_header_def strip_def)
  with assms have "\<forall>l\<in>set (split_nl output). \<not> is_header l" by auto
  then have "parse_lines init_state (split_nl output) = Inr init_state"
    by (intro parse_lines_no_header) (simp_all add: init_state_def)
  then show ?thesis by (simp add: parse_output_def init_state_def)
qed

text \<open>The statement at the empty text and at a text of two lines, the second a data line
  that would give a record under a header.\<close>

theorem parse_output_without_header_witness:
  "\<not> is_header ''no header here'' \<and> \<not> is_header example_line \<and>
   parse_output [] = Inr [] \<and>
   parse_output (''no header here'' @ CHR 0x0A # example_line) = Inr []"
proof -
  have 1: "\<not> is_header ''no header here''" by code_simp
  have 2: "\<not> is_header example_line" by code_simp
  have "split_nl (''no header here'' @ CHR 0x0A # example_line) =
      [''no header here'', example_line]" by code_simp
  with 1 2 have 3: "\<forall>l\<in>set (split_nl (''no header here'' @ CHR 0x0A # example_line)).
      \<not> is_header l" by simp
  have 4: "parse_output [] = Inr []"
    using parse_output_without_header [of "[]"] by simp
  have 5: "parse_output (''no header here'' @ CHR 0x0A # example_line) = Inr []"
    using parse_output_without_header [of "''no header here'' @ CHR 0x0A # example_line"] 3
    by blast
  from 1 2 4 5 show ?thesis by blast
qed

section \<open>Ad-hoc networks\<close>

text \<open>
  C6: a data line (a line that is not a header line) in which IBSS occurs anywhere,
  \<open>a\<close> before it and \<open>b\<close> after it, gives no record, whatever else it holds: the loop
  leaves its state as it was, so the parse gives what it gives without that line, on line
  lists and on texts.
\<close>

theorem ibss_lines_excluded:
  assumes "l = a @ ''IBSS'' @ b" and "\<not> is_header l"
  shows "parse_line st l = Inr st \<and>
         parse_lines st (xs @ l # ys) = parse_lines st (xs @ ys) \<and>
         (CHR 0x0A \<notin> set l \<longrightarrow>
            parse_output (pre @ CHR 0x0A # l @ CHR 0x0A # post) = parse_output (pre @ CHR 0x0A # post))"
proof -
  have "contains ''IBSS'' l" unfolding assms(1) by (rule contains_infix)
  with assms(2) have skip: "\<And>s. parse_line s l = Inr s" by (simp add: parse_line_skip_IBSS)
  have drop: "\<And>s zs ws. parse_lines s (zs @ l # ws) = parse_lines s (zs @ ws)"
    by (simp add: parse_lines_append skip split: sum.splits)
  have "CHR 0x0A \<notin> set l \<longrightarrow>
      parse_output (pre @ CHR 0x0A # l @ CHR 0x0A # post) = parse_output (pre @ CHR 0x0A # post)"
  proof
    assume "CHR 0x0A \<notin> set l"
    then have "split_nl (pre @ CHR 0x0A # l @ CHR 0x0A # post) =
        split_nl pre @ l # split_nl post"
      by (simp add: split_nl_append split_nl_single)
    then show "parse_output (pre @ CHR 0x0A # l @ CHR 0x0A # post) =
        parse_output (pre @ CHR 0x0A # post)"
      by (simp add: parse_output_def split_nl_append drop)
  qed
  with skip drop show ?thesis by blast
qed

text \<open>The statement at a line that would give a record under the header, were IBSS not
  in it.\<close>

theorem ibss_lines_excluded_witness:
  "example_ibss_line =
     ''    AdHocNet aa:bb:cc:dd:ee:01 -60  6       Y  US NONE '' @ ''IBSS'' @ [] \<and>
   \<not> is_header example_ibss_line \<and>
   CHR 0x0A \<notin> set example_ibss_line \<and>
   try_body example_state example_ibss_line
     = Inr \<lparr>ssid = ''AdHocNet'', bssid = ''aa:bb:cc:dd:ee:01'', quality = 80,
            security = ''NONE IBSS''\<rparr> \<and>
   parse_line example_state example_ibss_line = Inr example_state \<and>
   parse_output (example_header @ CHR 0x0A # example_ibss_line @ CHR 0x0A # example_line)
     = parse_output (example_header @ CHR 0x0A # example_line)"
proof -
  have 1: "example_ibss_line =
     ''    AdHocNet aa:bb:cc:dd:ee:01 -60  6       Y  US NONE '' @ ''IBSS'' @ []"
    by (simp add: example_ibss_line_def)
  have 2: "\<not> is_header example_ibss_line" by code_simp
  have 3: "CHR 0x0A \<notin> set example_ibss_line" by code_simp
  have 4: "try_body example_state example_ibss_line
     = Inr \<lparr>ssid = ''AdHocNet'', bssid = ''aa:bb:cc:dd:ee:01'', quality = 80,
            security = ''NONE IBSS''\<rparr>" by code_simp
  from ibss_lines_excluded [OF 1 2, of example_state "[]" "[]" example_header example_line]
    1 2 3 4
  show ?thesis by blast
qed

section \<open>Choosing the scanner\<close>

text \<open>
  C7, as stated, fails: on Linux the lookup does not fail. It returns \<open>None\<close>; the
  failure comes with the method call on that value and is an AttributeError.
\<close>

theorem get_scanner_unsupported_returns_None:
  "get_scanner ''Linux'' '''' = None \<and>
   call_get_access_points (\<lambda>enc mode b. Inr []) (\<lambda>c. []) (get_scanner ''Linux'' '''') []
     = (Inl AttributeError, [])"
  by (simp add: get_scanner_def call_get_access_points_def)

text \<open>
  C7 (amended): for every operating-system identifier other than \<open>Darwin\<close> the lookup
  returns no scanner (\<open>None\<close>) instead of failing; asking that result for access points
  raises AttributeError, and no scan command is run, by that call or by \<open>sample\<close>: the log
  of commands stays as it was. (On \<open>Darwin\<close> the call does run the scan command.)
\<close>

theorem unsupported_platform_no_scanner_no_command:
  assumes "operating_system \<noteq> ''Darwin''"
  shows "get_scanner operating_system dev = None \<and>
         call_get_access_points decode run (get_scanner operating_system dev) log
           = (Inl AttributeError, log) \<and>
         snd (sample decode run operating_system python_env dev log) = log \<and>
         snd (call_get_access_points decode run (get_scanner ''Darwin'' dev) log) = log @ [get_cmd]"
  using assms
  by (auto simp: get_scanner_def call_get_access_points_def sample_def get_access_points_def
      call_subprocess_def OSXWifiScanner_def split: sum.splits pyobj.splits)

text \<open>The statement on Linux, whatever the codecs and the scan command would do.\<close>

theorem unsupported_platform_no_scanner_no_command_witness:
  "''Linux'' \<noteq> ''Darwin'' \<and> get_scanner ''Linux'' ''en0'' = None \<and>
   (\<forall>decode run. sample decode run ''Linux'' False ''en0'' [] = (Inl AttributeError, []))"
proof -
  have 1: "''Linux'' \<noteq> ''Darwin''" by simp
  have 2: "get_scanner ''Linux'' ''en0'' = None"
    using unsupported_platform_no_scanner_no_command [OF 1] by blast
  have 3: "sample decode run ''Linux'' False ''en0'' [] = (Inl AttributeError, [])"
    for decode run
  proof -
    have "fst (sample decode run ''Linux'' False ''en0'' []) = Inl AttributeError"
      by (simp add: sample_def get_scanner_def call_get_access_points_def)
    moreover have "snd (sample decode run ''Linux'' False ''en0'' []) = []"
      using unsupported_platform_no_scanner_no_command [OF 1] by blast
    ultimately show ?thesis by (metis prod.collapse)
  qed
  from 1 2 3 show ?thesis by blast
qed

section \<open>The aggregator\<close>

text \<open>
  C8: for every list of access points, the dict holds under each record's key (the name,
  a space, the address) a quality, and the keys of the dict are exactly the records'
  keys; the last write wins: the quality under a record's key is that record's whenever no
  later record has the same key, so of several records with one key the latest counts.
\<close>

theorem aps_to_dict_last_write_wins:
  assumes "\<forall>a\<in>set ys. ssid a @ '' '' @ bssid a \<noteq> ssid ap @ '' '' @ bssid ap"
  shows "aps_to_dict (xs @ ap # ys) (ssid ap @ '' '' @ bssid ap) = Some (quality ap) \<and>
         dom (aps_to_dict (xs @ ap # ys)) = (\<lambda>a. ssid a @ '' '' @ bssid a) ` set (xs @ ap # ys)"
  using fold_store_other [OF assms] fold_store_dom [of ys] fold_store_dom [of xs]
  by (simp add: aps_to_dict_def image_Un)

text \<open>The statement at three records, the first two with one key: the second one's
  quality is kept.\<close>

theorem aps_to_dict_last_write_wins_witness:
  "''Cafe'' @ '' '' @ ''aa:bb:cc:dd:ee:02'' \<noteq> ''HomeNet'' @ '' '' @ ''aa:bb:cc:dd:ee:ff'' \<and>
   aps_to_dict
     [\<lparr>ssid = ''HomeNet'', bssid = ''aa:bb:cc:dd:ee:ff'', quality = 90, security = ''WPA2''\<rparr>,
      \<lparr>ssid = ''HomeNet'', bssid = ''aa:bb:cc:dd:ee:ff'', quality = 70, security = ''WPA2''\<rparr>,
      \<lparr>ssid = ''Cafe'', bssid = ''aa:bb:cc:dd:ee:02'', quality = 40, security = ''NONE''\<rparr>]
     ''HomeNet aa:bb:cc:dd:ee:ff'' = Some 70"
proof -
  have 1: "\<forall>a\<in>set [\<lparr>ssid = ''Cafe'', bssid = ''aa:bb:cc:dd:ee:02'', quality = 40,
                     security = ''NONE''\<rparr>].
      ssid a @ '' '' @ bssid a \<noteq>
        ssid \<lparr>ssid = ''HomeNet'', bssid = ''aa:bb:cc:dd:ee:ff'', quality = 70,
              security = ''WPA2''\<rparr>
        @ '' '' @
        bssid \<lparr>ssid = ''HomeNet'', bssid = ''aa:bb:cc:dd:ee:ff'', quality = 70,
               security = ''WPA2''\<rparr>"
    by simp
  from aps_to_dict_last_write_wins [OF 1,
      of "[\<lparr>ssid = ''HomeNet'', bssid = ''aa:bb:cc:dd:ee:ff'', quality = 90,
            security = ''WPA2''\<rparr>]"]
  show ?thesis by simp
qed

section \<open>Decoding the command's output\<close>

text \<open>
  C9, on the code: for every byte sequence \<open>ensure_str\<close> returns a text and raises
  nothing, but it never falls back to UTF-16. The first decoding runs under the handler
  \<open>ignore\<close>, so it raises no UnicodeDecodeError and the \<open>except\<close> branch with the second
  decoding is never entered: whatever the other codecs do, the result is the UTF-8
  decoding with the undecodable bytes dropped. The bytes FF FE 48 00 69 00, which are
  UTF-16 for \<open>Hi\<close>, come out as H, NUL, i, NUL and not as \<open>Hi\<close>.
\<close>

theorem ensure_str_never_falls_back:
  "ensure_str (python_codecs other) (Bytes b) = Inr (Str (utf8_ignore b)) \<and>
   ensure_str (python_codecs other) (Bytes [0xFF, 0xFE, 0x48, 0x00, 0x69, 0x00])
     = Inr (Str [0x48, 0x00, 0x69, 0x00]) \<and>
   ensure_str (python_codecs other) (Bytes [0xFF, 0xFE, 0x48, 0x00, 0x69, 0x00])
     \<noteq> Inr (Str [0x48, 0x69])"
proof -
  have always: "ensure_str (python_codecs other) (Bytes c) = Inr (Str (utf8_ignore c))" for c
    by (simp add: ensure_str_def python_codecs_def)
  have "utf8_ignore [0xFF, 0xFE, 0x48, 0x00, 0x69, 0x00] = [0x48, 0x00, 0x69, 0x00]"
    by (simp add: utf8_sequence_def)
  with always show ?thesis by simp
qed

section \<open>Keys that collide\<close>

text \<open>
  C10: the key is not injective on pairs of name and address. The records with name
  \<open>a b\<close> and address \<open>c\<close>, and with name \<open>a\<close> and address \<open>b c\<close>, differ in both and
  share the key \<open>a b c\<close>; the dict of the two holds one entry, with the quality of the
  later record.
\<close>

theorem composite_key_not_injective:
  "(''a b'', ''c'') \<noteq> (''a'', ''b c'') \<and>
   ''a b'' @ '' '' @ ''c'' = ''a'' @ '' '' @ ''b c'' \<and>
   aps_to_dict [\<lparr>ssid = ''a b'', bssid = ''c'', quality = 10, security = ''''\<rparr>,
                \<lparr>ssid = ''a'', bssid = ''b c'', quality = 20, security = ''''\<rparr>]
     = [''a b c'' \<mapsto> 20]"
  by (simp add: aps_to_dict_def)

end
